theory Spec2Isabelle
  imports Complex_Main "HOL-Library.AList"
begin

section \<open>The spaced-repetition engine of smart-learning-cards\<close>

text \<open>
  A shallow embedding of \<^verbatim>\<open>frontend/src/utils/superMemo.ts\<close> (class
  \<^verbatim>\<open>SpacedRepetitionEngine\<close>) and of the types it reads from
  \<^verbatim>\<open>types/flashcard.ts\<close>.

  Numbers. A TypeScript \<^verbatim>\<open>number\<close> is an IEEE 754 binary64 value. The numbers that
  carry fractions (ease factors, quality scores, averages) are values of the type
  \<open>double\<close> below: the reals with a significand of 53 bits, every arithmetic operation
  and every decimal literal rounded to the nearest of them, a tie going to the even
  significand. Day counts, repetition counts and epoch-millisecond time values, which
  the engine only ever sets to integers, are \<open>int\<close>, converted with \<open>num\<close> where they enter
  the arithmetic of fractions. Outside the model are NaN and the
  infinities, the bounds of the exponent (overflow beyond \<open>2^1024\<close>, gradual underflow
  below \<open>2^-1022\<close>), the negative zero, and the bound of \<open>8.64 * 10^15\<close> ms on the time
  value of a \<^verbatim>\<open>Date\<close>.

  Truthiness. The source tests numbers for truthiness (\<^verbatim>\<open>!x\<close>, \<^verbatim>\<open>x && ...\<close>); a
  finite number is falsy exactly when it is zero. A missing optional field
  (\<^verbatim>\<open>undefined\<close>) is \<open>None\<close> and is falsy too.

  Environment. The engine reads the wall clock (\<^verbatim>\<open>Date.now()\<close>, \<^verbatim>\<open>new Date()\<close>) and,
  through \<^verbatim>\<open>getDate\<close>/\<^verbatim>\<open>setDate\<close>, the host's time zone. Both are explicit
  parameters here: a clock \<open>clk\<close>, where \<open>clk k\<close> is the value the clock has at the
  \<open>k\<close>-th place, in source order, where the called function reads it (milliseconds
  elapsed since the epoch), and the host's offset function \<open>LocalTZA\<close> of ECMAScript.
\<close>

subsection \<open>Binary64 numbers\<close>

text \<open>The nearest integer, a tie going to the even one.\<close>

definition rne :: "real \<Rightarrow> int" where
  "rne y =
     (let f = \<lfloor>y\<rfloor>; r = y - real_of_int f
      in if r < 1 / 2 then f
         else if 1 / 2 < r then f + 1
         else if even f then f else f + 1)"

text \<open>
  The binary exponent of a real that is not zero, \<open>2 powi expo x \<le> \<bar>x\<bar> < 2 powi (expo x + 1)\<close>,
  and the unit in the last of the 53 places of its significand.
\<close>

definition expo :: "real \<Rightarrow> int" where
  "expo x = \<lfloor>log 2 \<bar>x\<bar>\<rfloor>"

definition ulp :: "real \<Rightarrow> real" where
  "ulp x = 2 powi (expo x - 52)"

text \<open>Rounding to the nearest binary64 value: the magnitude, then any real.\<close>

definition flp :: "real \<Rightarrow> real" where
  "flp a = real_of_int (rne (a / ulp a)) * ulp a"

definition fl :: "real \<Rightarrow> real" where
  "fl x = (if x = 0 then 0 else sgn x * flp \<bar>x\<bar>)"

typedef double = "{x::real. fl x = x}"
  morphisms dval Abs_double
  by (rule exI[of _ 0]) (simp add: fl_def)

text \<open>
  \<open>num x\<close> is the number a decimal literal \<open>x\<close>, or the conversion of an integer \<open>x\<close>,
  denotes. The arithmetic of the source is the exact operation followed by the rounding.
\<close>

definition num :: "real \<Rightarrow> double" where
  "num x = Abs_double (fl x)"

instantiation double :: "{zero, plus, minus, times, inverse, linorder}"
begin

definition zero_double :: double where
  "zero_double = num 0"

definition plus_double :: "double \<Rightarrow> double \<Rightarrow> double" where
  "plus_double a b = num (dval a + dval b)"

definition minus_double :: "double \<Rightarrow> double \<Rightarrow> double" where
  "minus_double a b = num (dval a - dval b)"

definition times_double :: "double \<Rightarrow> double \<Rightarrow> double" where
  "times_double a b = num (dval a * dval b)"

definition inverse_double :: "double \<Rightarrow> double" where
  "inverse_double a = num (inverse (dval a))"

definition divide_double :: "double \<Rightarrow> double \<Rightarrow> double" where
  "divide_double a b = num (dval a / dval b)"

definition less_eq_double :: "double \<Rightarrow> double \<Rightarrow> bool" where
  "less_eq_double a b = (dval a \<le> dval b)"

definition less_double :: "double \<Rightarrow> double \<Rightarrow> bool" where
  "less_double a b = (dval a < dval b)"

instance
  by standard (auto simp: less_eq_double_def less_double_def dval_inject)

end

text \<open>
  The quotient by zero is \<^verbatim>\<open>Infinity\<close> or \<^verbatim>\<open>NaN\<close> in the source, which \<open>double\<close> does not
  hold: \<open>a / b\<close> stands for the source's quotient only where \<open>b\<close> is not zero, and a
  quotient whose divisor may be zero is \<open>divide_number\<close> below, with a failure for it.
\<close>

subsection \<open>Data model\<close>

datatype Response = Know | Unknown | Difficult

record ReviewHistory =
  timestamp :: int
  response :: Response
  review_quality :: "double option"

record SM2Data =
  easeFactor :: double
  interval :: int
  repetitions :: int
  nextReview :: int
  lastReviewed :: int

text \<open>
  \<^verbatim>\<open>SuperMemoResult\<close> has the fields of \<^verbatim>\<open>SM2Data\<close>, and the callers store a result
  as the card's \<^verbatim>\<open>sm2Data\<close> (\<^verbatim>\<open>onUpdateCard(card.id, sm2Result)\<close>).
\<close>

type_synonym SuperMemoResult = SM2Data

record FlashCard =
  card_id :: string
  studySetId :: string
  front :: string
  back_text :: string
  sourceFragment :: string
  confidence :: double
  cardOrder :: int
  createdAt :: string
  sm2Data :: "SM2Data option"
  reviewHistory :: "ReviewHistory list option"

subsection \<open>Rounding to an integer, the clock and dates\<close>

text \<open>\<^verbatim>\<open>Math.round\<close>: the nearest integer, a tie going up (towards \<open>+\<infinity>\<close>).\<close>

definition Math_round :: "double \<Rightarrow> int" where
  "Math_round x = \<lfloor>dval x + 1 / 2\<rfloor>"

text \<open>Truthiness of a finite number.\<close>

definition truthy :: "'a::zero \<Rightarrow> bool" where
  "truthy x = (x \<noteq> 0)"

type_synonym clock = "nat \<Rightarrow> nat"

text \<open>
  \<open>LocalTZA t isUTC\<close> is the host zone's offset from UTC in milliseconds, at the UTC
  instant \<open>t\<close> when \<open>isUTC\<close> holds and at the local time \<open>t\<close> otherwise.
\<close>

type_synonym tza = "int \<Rightarrow> bool \<Rightarrow> int"

definition msPerDay :: int where
  "msPerDay = 86400000"

definition Day :: "int \<Rightarrow> int" where
  "Day t = t div msPerDay"

definition TimeWithinDay :: "int \<Rightarrow> int" where
  "TimeWithinDay t = t mod msPerDay"

definition MakeDate :: "int \<Rightarrow> int \<Rightarrow> int" where
  "MakeDate day time = day * msPerDay + time"

definition LocalTime :: "tza \<Rightarrow> int \<Rightarrow> int" where
  "LocalTime tz t = t + tz t True"

definition UTC :: "tza \<Rightarrow> int \<Rightarrow> int" where
  "UTC tz t = t - tz t False"

text \<open>A host whose zone is at one offset from UTC at all times (UTC itself: offset \<open>0\<close>).\<close>

definition fixed_zone :: "int \<Rightarrow> tza" where
  "fixed_zone offset = (\<lambda>t isUTC. offset)"

text \<open>
  \<^verbatim>\<open>d.setDate(d.getDate() + n)\<close> on a \<^verbatim>\<open>Date\<close> whose time value is \<open>tv\<close>; the
  result is the new time value. ECMAScript computes, with \<open>t = LocalTime tv\<close>,
  \<open>UTC (MakeDate (MakeDay (YearFromTime t) (MonthFromTime t) (DateFromTime t + n))
  (TimeWithinDay t))\<close>, and \<open>MakeDay\<close> of the year and month of \<open>t\<close> and of its day of
  the month plus \<open>n\<close> is the day number \<open>Day t + n\<close>.
\<close>

definition setDate_getDate_plus :: "tza \<Rightarrow> int \<Rightarrow> int \<Rightarrow> int" where
  "setDate_getDate_plus tz tv n =
     (let t = LocalTime tz tv
      in UTC tz (MakeDate (Day t + n) (TimeWithinDay t)))"

text \<open>
  \<^verbatim>\<open>new Date(tv).toISOString().split('T')[0]\<close>: the UTC calendar date of \<open>tv\<close> as
  text. The text names the UTC day number \<open>Day tv\<close> and nothing else of \<open>tv\<close>, and two
  day numbers have two texts; the model takes the day number for the text.
\<close>

type_synonym dateKey = int

definition toISODate :: "int \<Rightarrow> dateKey" where
  "toISODate tv = Day tv"

subsection \<open>calculateNextReview\<close>

text \<open>
  \<^verbatim>\<open>card.sm2Data || {easeFactor: 2.5, interval: 1, repetitions: 0, nextReview: Date.now(),
  lastReviewed: Date.now()}\<close>: an object is truthy, so the defaults stand in exactly
  when the card has no \<^verbatim>\<open>sm2Data\<close>.
\<close>

definition currentData :: "clock \<Rightarrow> FlashCard \<Rightarrow> SM2Data" where
  "currentData clk fcard =
     (case sm2Data fcard of
        Some d \<Rightarrow> d
      | None \<Rightarrow>
          \<lparr>easeFactor = num 2.5, interval = 1, repetitions = 0,
            nextReview = int (clk 0), lastReviewed = int (clk 1)\<rparr>)"

definition calculateNextReview :: "tza \<Rightarrow> clock \<Rightarrow> FlashCard \<Rightarrow> double \<Rightarrow> SuperMemoResult" where
  "calculateNextReview tz clk fcard quality =
     (let ef = easeFactor (currentData clk fcard);
          ivl = interval (currentData clk fcard);
          reps = repetitions (currentData clk fcard);
          q = max 0 (min 5 (Math_round quality));
          (ef', ivl', reps') =
            (if q \<ge> 3 then
               (let reps1 = reps + 1;
                    ivl1 = (if reps1 = 1 then 1
                            else if reps1 = 2 then 6
                            else Math_round (num (real_of_int ivl) * ef))
                in (max (num 1.3)
                      (ef + (num 0.1 - num (real_of_int (5 - q)) *
                                         (num 0.08 + num (real_of_int (5 - q)) * num 0.02))),
                    ivl1, reps1))
             else (max (num 1.3) (ef - num 0.2), 1, 0));
          nextReviewDate = setDate_getDate_plus tz (int (clk 2)) ivl'
      in \<lparr>easeFactor = num (real_of_int (Math_round (ef' * num 100))) / num 100,
          interval = ivl',
          repetitions = reps',
          nextReview = nextReviewDate,
          lastReviewed = int (clk 3)\<rparr>)"

text \<open>
  The callers (\<^verbatim>\<open>handleSM2Response\<close> in RepeatMode.tsx, \<^verbatim>\<open>handleUpdateCard\<close> of the
  application) store the result as the card's new \<^verbatim>\<open>sm2Data\<close>. \<open>reviewAll\<close> does so
  for a run of reviews of one card, each with its own clock and quality.
\<close>

definition handleUpdateCard :: "FlashCard \<Rightarrow> SuperMemoResult \<Rightarrow> FlashCard" where
  "handleUpdateCard fcard sm2Result = fcard\<lparr>sm2Data := Some sm2Result\<rparr>"

fun reviewAll :: "tza \<Rightarrow> FlashCard \<Rightarrow> (clock \<times> double) list \<Rightarrow> FlashCard" where
  "reviewAll tz fcard [] = fcard"
| "reviewAll tz fcard ((clk, quality) # rest) =
     reviewAll tz (handleUpdateCard fcard (calculateNextReview tz clk fcard quality)) rest"

subsection \<open>getDueCards and getDifficultCards\<close>

definition getDueCards :: "clock \<Rightarrow> FlashCard list \<Rightarrow> FlashCard list" where
  "getDueCards clk cards =
     (let now = int (clk 0)
      in filter (\<lambda>fcard.
           case sm2Data fcard of
             None \<Rightarrow> True
           | Some d \<Rightarrow> if \<not> truthy (nextReview d) then True else nextReview d \<le> now)
         cards)"

definition getDifficultCards :: "clock \<Rightarrow> FlashCard list \<Rightarrow> FlashCard list" where
  "getDifficultCards clk cards =
     (let now = int (clk 0)
      in filter (\<lambda>fcard.
           let hasDifficultHistory =
                 (case reviewHistory fcard of
                    None \<Rightarrow> False
                  | Some h \<Rightarrow> list_ex (\<lambda>review. response review = Unknown \<or> response review = Difficult) h);
               hasLowEaseFactor =
                 (case sm2Data fcard of
                    None \<Rightarrow> False
                  | Some d \<Rightarrow> truthy (easeFactor d) \<and> easeFactor d < num 2.0);
               isDue =
                 (case sm2Data fcard of
                    None \<Rightarrow> True
                  | Some d \<Rightarrow> if \<not> truthy (nextReview d) then True else nextReview d \<le> now)
           in (hasDifficultHistory \<or> hasLowEaseFactor) \<and> isDue)
         cards)"

subsection \<open>responseToQuality\<close>

fun responseToQuality :: "Response \<Rightarrow> double" where
  "responseToQuality Know = num 5"
| "responseToQuality Difficult = num 3"
| "responseToQuality Unknown = num 1"

subsection \<open>getStudyStats\<close>

record StudyStats =
  total_cards :: nat
  reviewed :: nat
  due :: nat
  difficult_cards :: nat
  mastered :: nat
  masteryPercentage :: int
  avgEaseFactor :: double

text \<open>
  What \<open>double\<close> does not hold is a failure of the model: the quotient by zero
  (\<^verbatim>\<open>Infinity\<close> or \<^verbatim>\<open>NaN\<close> in the source) is \<open>NotFinite\<close>, and reading a field of
  \<^verbatim>\<open>undefined\<close> (\<^verbatim>\<open>card.sm2Data!.easeFactor\<close> on a card without \<^verbatim>\<open>sm2Data\<close>) is
  \<open>TypeError\<close>.
\<close>

datatype failure = TypeError | NotFinite

definition divide_number :: "double \<Rightarrow> double \<Rightarrow> failure + double" where
  "divide_number a b = (if b = 0 then Inl NotFinite else Inr (a / b))"

text \<open>
  \<^verbatim>\<open>cardsWithEase.reduce((sum, card) => sum + (card.sm2Data!.easeFactor), 0)\<close>, from the
  running sum \<open>sum0\<close>.
\<close>

fun reduce_easeFactor :: "double \<Rightarrow> FlashCard list \<Rightarrow> failure + double" where
  "reduce_easeFactor sum0 [] = Inr sum0"
| "reduce_easeFactor sum0 (fcard # rest) =
     (case sm2Data fcard of
        None \<Rightarrow> Inl TypeError
      | Some d \<Rightarrow> reduce_easeFactor (sum0 + easeFactor d) rest)"

text \<open>The clock as a callee sees it, after the caller's first \<open>n\<close> places.\<close>

definition later :: "nat \<Rightarrow> clock \<Rightarrow> clock" where
  "later n clk k = clk (n + k)"

definition getStudyStats :: "clock \<Rightarrow> FlashCard list \<Rightarrow> failure + StudyStats" where
  "getStudyStats clk cards =
     (let total = length cards;
          reviewed_n = length (filter (\<lambda>fcard.
                         case sm2Data fcard of
                           None \<Rightarrow> False
                         | Some d \<Rightarrow> truthy (lastReviewed d)) cards);
          due_n = length (getDueCards clk cards);
          difficult_n = length (getDifficultCards (later 1 clk) cards);
          cardsWithEase = filter (\<lambda>fcard.
                            case sm2Data fcard of
                              None \<Rightarrow> False
                            | Some d \<Rightarrow> truthy (easeFactor d)) cards;
          avg = (if length cardsWithEase > 0
                 then (case reduce_easeFactor (num 0) cardsWithEase of
                         Inl e \<Rightarrow> Inl e
                       | Inr s \<Rightarrow> divide_number s (num (real (length cardsWithEase))))
                 else Inr (num 2.5));
          masteredCards = length (filter (\<lambda>fcard.
                            case sm2Data fcard of
                              None \<Rightarrow> False
                            | Some d \<Rightarrow> truthy (easeFactor d) \<and> easeFactor d > num 2.5 \<and>
                                       truthy (interval d) \<and> interval d > 7) cards);
          percentage = (if total > 0
                        then (case divide_number (num (real masteredCards)) (num (real total)) of
                                Inl e \<Rightarrow> Inl e
                              | Inr r \<Rightarrow> Inr (Math_round (r * num 100)))
                        else Inr 0)
      in case avg of
           Inl e \<Rightarrow> Inl e
         | Inr a \<Rightarrow>
             (case percentage of
                Inl e \<Rightarrow> Inl e
              | Inr p \<Rightarrow>
                  Inr \<lparr>total_cards = total,
                       reviewed = reviewed_n,
                       due = due_n,
                       difficult_cards = difficult_n,
                       mastered = masteredCards,
                       masteryPercentage = p,
                       avgEaseFactor = num (real_of_int (Math_round (a * num 100))) / num 100\<rparr>))"

subsection \<open>getUpcomingReviews\<close>

text \<open>
  The schedule is an object keyed by date text; its entries keep the order in which the
  keys were first written, and writing a key again replaces its value in place.
\<close>

type_synonym schedule = "(dateKey \<times> nat) list"

text \<open>The loop \<^verbatim>\<open>for (let i = 0; i < days; i++)\<close>, from \<open>i\<close> on.\<close>

function upcoming_loop :: "tza \<Rightarrow> int \<Rightarrow> FlashCard list \<Rightarrow> int \<Rightarrow> int \<Rightarrow> schedule \<Rightarrow> schedule" where
  "upcoming_loop tz now cards days i sched =
     (if i < days then
        (let date = setDate_getDate_plus tz now i;
             dateKey = toISODate date;
             n = length (filter (\<lambda>fcard.
                   case sm2Data fcard of
                     None \<Rightarrow> False
                   | Some d \<Rightarrow>
                       if \<not> truthy (nextReview d) then False
                       else toISODate (nextReview d) = dateKey) cards)
         in upcoming_loop tz now cards days (i + 1) (AList.update dateKey n sched))
      else sched)"
  by pat_completeness auto
termination
  by (relation "measure (\<lambda>(tz, now, cards, days, i, sched). nat (days - i))") auto

declare upcoming_loop.simps [simp del]

text \<open>\<open>days\<close> is \<open>7\<close> when the caller leaves it out.\<close>

definition getUpcomingReviews :: "tza \<Rightarrow> clock \<Rightarrow> FlashCard list \<Rightarrow> int \<Rightarrow> schedule" where
  "getUpcomingReviews tz clk cards days = upcoming_loop tz (int (clk 0)) cards days 0 []"

subsection \<open>Fixtures\<close>

text \<open>
  Concrete hosts, clocks and cards for the evaluations below. \<open>utc_zone\<close> is a host on
  UTC. \<open>cet_2026\<close> is a host on Central European Time around the change to summer time
  of 29 March 2026, 01:00 UTC (\<open>1774746000000\<close>, 02:00 local time): one hour ahead of
  UTC before it and two hours after; a local time in the skipped hour is read with the
  offset before the change. \<open>steady_clock t\<close> reads \<open>t\<close> at every place; \<open>ticking_clock t\<close>
  reads \<open>t\<close> at the first four places and later times after them.
\<close>

definition utc_zone :: tza where
  "utc_zone = fixed_zone 0"

definition cet_2026 :: tza where
  "cet_2026 t isUTC =
     (if isUTC then (if t < 1774746000000 then 3600000 else 7200000)
      else (if t < 1774746000000 + 7200000 then 3600000 else 7200000))"

definition steady_clock :: "nat \<Rightarrow> clock" where
  "steady_clock t k = t"

definition ticking_clock :: "nat \<Rightarrow> clock" where
  "ticking_clock t k = (if k < 4 then t else t + k)"

definition mock_card :: "string \<Rightarrow> SM2Data option \<Rightarrow> ReviewHistory list option \<Rightarrow> FlashCard" where
  "mock_card i s h =
     \<lparr>card_id = i, studySetId = ''set1'', front = ''front'', back_text = ''back'',
      sourceFragment = [], confidence = num 9, cardOrder = 0,
      createdAt = ''2026-03-28T00:30:00.000Z'', sm2Data = s, reviewHistory = h\<rparr>"

definition mock_sm2 :: "double \<Rightarrow> int \<Rightarrow> int \<Rightarrow> int \<Rightarrow> SM2Data" where
  "mock_sm2 e i r t =
     \<lparr>easeFactor = e, interval = i, repetitions = r, nextReview = t, lastReviewed = 1000\<rparr>"

subsection \<open>Vocabulary of the statements\<close>

text \<open>
  \<open>reads_only clk now\<close>: each of the (at most four) places where one call of
  \<^verbatim>\<open>calculateNextReview\<close> reads the clock sees the same instant \<open>now\<close>.
\<close>

definition reads_only :: "clock \<Rightarrow> nat \<Rightarrow> bool" where
  "reads_only clk now = (clk 0 = now \<and> clk 1 = now \<and> clk 2 = now \<and> clk 3 = now)"

text \<open>
  \<open>onDay k\<close>: the card has \<^verbatim>\<open>sm2Data\<close> whose \<^verbatim>\<open>nextReview\<close> is not zero and falls on
  the UTC day \<open>k\<close>.
\<close>

definition onDay :: "dateKey \<Rightarrow> FlashCard \<Rightarrow> bool" where
  "onDay k = (\<lambda>fcard. \<exists>d. sm2Data fcard = Some d \<and> nextReview d \<noteq> 0 \<and> Day (nextReview d) = k)"

section \<open>Properties\<close>

subsection \<open>Rounding to binary64\<close>

lemma rne_of_int: "rne (real_of_int n) = n"
  by (simp add: rne_def)

lemma rne_lower: "\<lfloor>y\<rfloor> \<le> rne y"
  by (simp add: rne_def Let_def)

lemma rne_upper: "rne y \<le> \<lfloor>y\<rfloor> + 1"
  by (simp add: rne_def Let_def)

lemma rne_ge:
  assumes "real_of_int n \<le> y"
  shows "n \<le> rne y"
proof -
  have "n \<le> \<lfloor>y\<rfloor>" using assms by (simp add: le_floor_iff)
  then show ?thesis using rne_lower[of y] by linarith
qed

lemma rne_le:
  assumes "y \<le> real_of_int n"
  shows "rne y \<le> n"
proof (cases "y = real_of_int n")
  case True
  then show ?thesis by (simp add: rne_of_int)
next
  case False
  with assms have "y < real_of_int n" by simp
  then have "\<lfloor>y\<rfloor> < n" by (simp add: floor_less_iff)
  then show ?thesis using rne_upper[of y] by linarith
qed

lemma rne_mono:
  assumes "x \<le> y"
  shows "rne x \<le> rne y"
proof (cases "\<lfloor>x\<rfloor> = \<lfloor>y\<rfloor>")
  case False
  have "\<lfloor>x\<rfloor> \<le> \<lfloor>y\<rfloor>" using assms by (rule floor_mono)
  with False have "\<lfloor>x\<rfloor> + 1 \<le> \<lfloor>y\<rfloor>" by simp
  then show ?thesis using rne_upper[of x] rne_lower[of y] by linarith
next
  case True
  then show ?thesis using assms by (auto simp: rne_def Let_def)
qed

lemma expo_bounds:
  assumes "x \<noteq> 0"
  shows "2 powi (expo x) \<le> \<bar>x\<bar>" and "\<bar>x\<bar> < 2 powi (expo x + 1)"
proof -
  have pos: "0 < \<bar>x\<bar>" using assms by simp
  have "real_of_int (expo x) \<le> log 2 \<bar>x\<bar>" by (simp add: expo_def)
  then have "2 powr real_of_int (expo x) \<le> 2 powr log 2 \<bar>x\<bar>" by simp
  then show "2 powi (expo x) \<le> \<bar>x\<bar>" using pos by (simp add: powr_real_of_int')
  have "log 2 \<bar>x\<bar> < real_of_int (expo x + 1)" by (simp add: expo_def)
  then have "2 powr log 2 \<bar>x\<bar> < 2 powr real_of_int (expo x + 1)" by (simp del: of_int_add)
  then show "\<bar>x\<bar> < 2 powi (expo x + 1)"
    using pos by (simp add: powr_real_of_int' del: of_int_add)
qed

lemma expo_unique:
  assumes "2 powi e \<le> \<bar>x\<bar>" and "\<bar>x\<bar> < 2 powi (e + 1)"
  shows "expo x = e"
proof -
  have pos: "0 < \<bar>x\<bar>" using assms(1) by (smt (verit) zero_less_power_int)
  have "2 powr real_of_int e \<le> \<bar>x\<bar>" using assms(1) by (simp add: powr_real_of_int')
  then have a: "real_of_int e \<le> log 2 \<bar>x\<bar>" using pos by (simp add: le_log_iff)
  have "\<bar>x\<bar> < 2 powr real_of_int (e + 1)"
    using assms(2) by (simp add: powr_real_of_int' del: of_int_add)
  then have b: "log 2 \<bar>x\<bar> < real_of_int (e + 1)"
    using pos by (simp add: log_less_iff del: of_int_add)
  show ?thesis unfolding expo_def using a b by (simp add: floor_unique)
qed

lemma expo_mono:
  assumes "0 < a" and "a \<le> b"
  shows "expo a \<le> expo b"
  unfolding expo_def using assms by (intro floor_mono) (simp add: log_le_cancel_iff)

lemma powi_52: "2 powi e = 2 ^ 52 * (2::real) powi (e - 52)"
proof -
  have "(2::real) powi e = 2 powi (52 + (e - 52))" by simp
  also have "\<dots> = 2 powi 52 * 2 powi (e - 52)" by (rule power_int_add) simp
  finally show ?thesis by simp
qed

lemma powi_Suc: "(2::real) powi (e + 1) = 2 * 2 powi e"
  by (simp add: power_int_add)

text \<open>
  A magnitude \<open>a\<close> with exponent \<open>e\<close> is rounded to a multiple \<open>n * 2 powi (e - 52)\<close> with
  \<open>2^52 \<le> n \<le> 2^53\<close>, so the rounded value stays between \<open>2 powi e\<close> and \<open>2 powi (e + 1)\<close>.
\<close>

lemma flp_binade:
  assumes "2 powi e \<le> a" and "a < 2 powi (e + 1)"
  shows "flp a = real_of_int (rne (a / 2 powi (e - 52))) * 2 powi (e - 52)"
    and "2 ^ 52 \<le> rne (a / 2 powi (e - 52))"
    and "rne (a / 2 powi (e - 52)) \<le> 2 ^ 53"
proof -
  have pos: "0 < a" using assms(1) by (smt (verit) zero_less_power_int)
  have e: "expo a = e" using assms pos by (intro expo_unique) simp_all
  show "flp a = real_of_int (rne (a / 2 powi (e - 52))) * 2 powi (e - 52)"
    by (simp add: flp_def ulp_def e)
  define u where "u = (2::real) powi (e - 52)"
  have u: "0 < u" by (simp add: u_def)
  have lo: "2 ^ 52 * u \<le> a" using assms(1) powi_52[of e] by (simp add: u_def)
  have hi: "a < 2 ^ 53 * u" using assms(2) powi_52[of e] by (simp add: u_def powi_Suc)
  have "real_of_int (2 ^ 52) \<le> a / u" using lo u by (simp add: pos_le_divide_eq)
  then show "2 ^ 52 \<le> rne (a / 2 powi (e - 52))" unfolding u_def[symmetric] by (rule rne_ge)
  have "a / u \<le> real_of_int (2 ^ 53)" using hi u by (simp add: pos_divide_le_eq)
  then show "rne (a / 2 powi (e - 52)) \<le> 2 ^ 53" unfolding u_def[symmetric] by (rule rne_le)
qed

lemma flp_bounds:
  assumes "2 powi e \<le> a" and "a < 2 powi (e + 1)"
  shows "2 powi e \<le> flp a" and "flp a \<le> 2 powi (e + 1)"
proof -
  define u where "u = (2::real) powi (e - 52)"
  define n where "n = rne (a / u)"
  have u: "0 < u" by (simp add: u_def)
  have f: "flp a = real_of_int n * u" and lo: "2 ^ 52 \<le> n" and hi: "n \<le> 2 ^ 53"
    using flp_binade[OF assms] by (simp_all add: n_def u_def)
  have "2 ^ 52 * u \<le> real_of_int n * u" using lo u by simp
  then show "2 powi e \<le> flp a" using powi_52[of e] by (simp add: f u_def)
  have "real_of_int n * u \<le> 2 ^ 53 * u" using hi u by simp
  then show "flp a \<le> 2 powi (e + 1)" using powi_52[of e] by (simp add: f u_def powi_Suc)
qed

lemma flp_pos: "0 < a \<Longrightarrow> 0 < flp a"
  using flp_bounds(1)[of "expo a" a] expo_bounds[of a]
  by (smt (verit) zero_less_power_int)

lemma flp_idem:
  assumes "0 < a"
  shows "flp (flp a) = flp a"
proof -
  define e where "e = expo a"
  define u where "u = (2::real) powi (e - 52)"
  define n where "n = rne (a / u)"
  have b: "2 powi e \<le> a" "a < 2 powi (e + 1)"
    using expo_bounds[of a] assms by (simp_all add: e_def)
  have u: "0 < u" by (simp add: u_def)
  have f: "flp a = real_of_int n * u" and lo: "2 ^ 52 \<le> n" and hi: "n \<le> 2 ^ 53"
    using flp_binade[OF b] by (simp_all add: n_def u_def)
  show ?thesis
  proof (cases "n = 2 ^ 53")
    case False
    with hi have lt: "n < 2 ^ 53" by simp
    have "flp a < 2 ^ 53 * u" using lt u by (simp add: f)
    then have "flp a < 2 powi (e + 1)" using powi_52[of e] by (simp add: u_def powi_Suc)
    then have "flp (flp a) = real_of_int (rne (flp a / u)) * u"
      using flp_binade(1)[OF flp_bounds(1)[OF b]] by (simp add: u_def)
    also have "flp a / u = real_of_int n" using u by (simp add: f)
    finally show ?thesis by (simp add: rne_of_int f)
  next
    case True
    have v: "flp a = 2 powi (e + 1)" using powi_52[of e] by (simp add: f True u_def powi_Suc)
    have "(0::real) < 2 powi (e + 1)" by simp
    then have "flp a < 2 powi (e + 1 + 1)" unfolding v powi_Suc[of "e + 1"] by linarith
    then have "flp (flp a) = real_of_int (rne (flp a / 2 powi (e + 1 - 52))) * 2 powi (e + 1 - 52)"
      by (intro flp_binade(1)) (simp_all add: v)
    also have "flp a / 2 powi (e + 1 - 52) = real_of_int (2 ^ 52)"
      using powi_52[of "e + 1"] by (simp add: v)
    finally have "flp (flp a) = real_of_int (2 ^ 52) * 2 powi (e + 1 - 52)"
      by (simp only: rne_of_int)
    then show ?thesis using powi_52[of "e + 1"] by (simp add: v)
  qed
qed

lemma flp_mono:
  assumes "0 < a" and "a \<le> b"
  shows "flp a \<le> flp b"
proof -
  have pb: "0 < b" using assms by simp
  have ba: "2 powi (expo a) \<le> a" "a < 2 powi (expo a + 1)"
    using expo_bounds[of a] assms by simp_all
  have bb: "2 powi (expo b) \<le> b" "b < 2 powi (expo b + 1)"
    using expo_bounds[of b] pb by simp_all
  show ?thesis
  proof (cases "expo a = expo b")
    case True
    have "a / ulp a \<le> b / ulp a" using assms by (simp add: ulp_def divide_right_mono)
    then have "rne (a / ulp a) \<le> rne (b / ulp a)" by (rule rne_mono)
    then show ?thesis by (simp add: flp_def ulp_def True)
  next
    case False
    with expo_mono[OF assms] have "expo a + 1 \<le> expo b" by simp
    then have "(2::real) powi (expo a + 1) \<le> 2 powi (expo b)"
      by (intro power_int_increasing) simp_all
    then show ?thesis using flp_bounds(2)[OF ba] flp_bounds(1)[OF bb] by linarith
  qed
qed

lemma fl_idem: "fl (fl x) = fl x"
proof (cases "x = 0")
  case True
  then show ?thesis by (simp add: fl_def)
next
  case False
  then have p: "0 < flp \<bar>x\<bar>" by (simp add: flp_pos)
  have "fl x = sgn x * flp \<bar>x\<bar>" using False by (simp add: fl_def)
  moreover have "\<bar>sgn x * flp \<bar>x\<bar>\<bar> = flp \<bar>x\<bar>" using False p by (simp add: abs_mult)
  moreover have "sgn (sgn x * flp \<bar>x\<bar>) = sgn x" using False p by (simp add: sgn_mult)
  ultimately show ?thesis using False p flp_idem[of "\<bar>x\<bar>"] by (simp add: fl_def)
qed

lemma fl_mono:
  assumes "x \<le> y"
  shows "fl x \<le> fl y"
proof -
  consider "0 < x" | "y < 0" | "x \<le> 0" "0 \<le> y" using assms by linarith
  then show ?thesis
  proof cases
    case 1
    then show ?thesis using assms flp_mono[of x y] by (simp add: fl_def)
  next
    case 2
    then have "flp \<bar>y\<bar> \<le> flp \<bar>x\<bar>" using assms by (intro flp_mono) simp_all
    then show ?thesis using 2 assms by (simp add: fl_def)
  next
    case 3
    have "fl x \<le> 0"
      using 3(1) flp_pos[of "\<bar>x\<bar>"] by (cases "x = 0") (simp_all add: fl_def)
    moreover have "0 \<le> fl y"
      using 3(2) flp_pos[of "\<bar>y\<bar>"] by (cases "y = 0") (simp_all add: fl_def)
    ultimately show ?thesis by simp
  qed
qed

lemma fl_eq_0_iff: "fl x = 0 \<longleftrightarrow> x = 0"
  using flp_pos[of "\<bar>x\<bar>"] by (cases "x = 0") (auto simp: fl_def sgn_if)

text \<open>The exponent of a given real, by halving or doubling it into \<open>[1, 2)\<close>.\<close>

lemma expo_base: "1 \<le> \<bar>x\<bar> \<Longrightarrow> \<bar>x\<bar> < 2 \<Longrightarrow> expo x = 0"
  by (rule expo_unique) simp_all

lemma expo_half:
  assumes "2 \<le> \<bar>x\<bar>"
  shows "expo x = expo (x / 2) + 1"
proof -
  define e where "e = expo (x / 2)"
  have nz: "x / 2 \<noteq> 0" using assms by auto
  have "2 powi e \<le> \<bar>x\<bar> / 2" "\<bar>x\<bar> / 2 < 2 powi (e + 1)"
    using expo_bounds[OF nz] by (simp_all add: e_def)
  then have "2 powi (e + 1) \<le> \<bar>x\<bar>" "\<bar>x\<bar> < 2 powi (e + 1 + 1)"
    unfolding powi_Suc[of "e + 1"] unfolding powi_Suc[of e] by linarith+
  then show ?thesis unfolding e_def[symmetric] by (rule expo_unique)
qed

lemma expo_double:
  assumes "0 < \<bar>x\<bar>" and "\<bar>x\<bar> < 1"
  shows "expo x = expo (x * 2) - 1"
proof -
  define e where "e = expo (x * 2) - 1"
  have nz: "x * 2 \<noteq> 0" using assms by auto
  have "2 powi (e + 1) \<le> \<bar>x\<bar> * 2" "\<bar>x\<bar> * 2 < 2 powi (e + 1 + 1)"
    using expo_bounds[OF nz] by (simp_all add: e_def abs_mult)
  then have "2 powi e \<le> \<bar>x\<bar>" "\<bar>x\<bar> < 2 powi (e + 1)"
    unfolding powi_Suc[of "e + 1"] unfolding powi_Suc[of e] by linarith+
  then show ?thesis unfolding e_def[symmetric] by (rule expo_unique)
qed

text \<open>The rules that evaluate the rounding of a given real.\<close>

lemmas fl_eval =
  fl_def flp_def ulp_def rne_def Let_def expo_base expo_half expo_double power_int_minus

text \<open>The value of a number, and the operations through their values.\<close>

lemma dval_num: "dval (num x) = fl x"
  unfolding num_def by (rule Abs_double_inverse) (simp add: fl_idem)

lemma fl_dval: "fl (dval a) = dval a"
  using dval[of a] by simp

lemma dval_zero: "dval 0 = 0"
  by (simp add: zero_double_def dval_num fl_def)

lemma num_eq_0_iff: "num x = 0 \<longleftrightarrow> x = 0"
  by (simp add: dval_inject[symmetric] dval_num dval_zero fl_eq_0_iff)

lemma truthy_double: "truthy (a::double) \<longleftrightarrow> dval a \<noteq> 0"
  by (simp add: truthy_def dval_inject[symmetric] dval_zero)

lemmas double_eval =
  dval_num dval_zero plus_double_def minus_double_def times_double_def divide_double_def
  less_eq_double_def less_double_def max_def min_def

lemma num_le: "x \<le> y \<Longrightarrow> num x \<le> num y"
  by (simp add: less_eq_double_def dval_num fl_mono)

subsection \<open>The review outcome\<close>

lemma currentData_fields:
  "easeFactor (currentData clk fcard) =
     (case sm2Data fcard of Some d \<Rightarrow> easeFactor d | None \<Rightarrow> num 2.5)"
  "interval (currentData clk fcard) = (case sm2Data fcard of Some d \<Rightarrow> interval d | None \<Rightarrow> 1)"
  "repetitions (currentData clk fcard) = (case sm2Data fcard of Some d \<Rightarrow> repetitions d | None \<Rightarrow> 0)"
  by (simp_all add: currentData_def split: option.splits)

text \<open>
  C1. \<^verbatim>\<open>calculateNextReview\<close> is deterministic. The source has no time parameter: it
  reads the clock itself. Two invocations on the same host, of the same card and quality,
  under any two clocks that show the same instant \<open>now\<close> wherever the call reads them,
  return the same result, equal in every field.
\<close>

theorem calculateNextReview_deterministic:
  assumes "reads_only clk1 now" and "reads_only clk2 now"
  shows "calculateNextReview tz clk1 fcard quality = calculateNextReview tz clk2 fcard quality"
proof -
  have "clk1 2 = clk2 2" "clk1 3 = clk2 3"
    using assms by (simp_all add: reads_only_def)
  then show ?thesis
    unfolding calculateNextReview_def currentData_fields by simp
qed

theorem calculateNextReview_deterministic_witness:
  "reads_only (steady_clock 1774657800000) 1774657800000 \<and>
   reads_only (ticking_clock 1774657800000) 1774657800000 \<and>
   ticking_clock 1774657800000 4 \<noteq> steady_clock 1774657800000 4 \<and>
   calculateNextReview cet_2026 (steady_clock 1774657800000) (mock_card ''1'' None None) (num 4) =
   calculateNextReview cet_2026 (ticking_clock 1774657800000) (mock_card ''1'' None None) (num 4)"
  using calculateNextReview_deterministic
    [of "steady_clock 1774657800000" 1774657800000 "ticking_clock 1774657800000"
        cet_2026 "mock_card ''1'' None None" "num 4"]
  by (simp add: reads_only_def steady_clock_def ticking_clock_def)

text \<open>
  C2. A correct response. When the quality, rounded and clamped into \<open>[0, 5]\<close>, is \<open>q \<ge> 3\<close>
  (so \<open>3\<close> itself counts as correct), the result has the prior repetitions plus one; the
  interval \<open>1\<close> when the new repetitions are \<open>1\<close>, \<open>6\<close> when they are \<open>2\<close>, and otherwise
  the prior interval times the prior ease factor, rounded; and the ease factor
  \<open>max 1.3 (prior + (0.1 - (5 - q) * (0.08 + (5 - q) * 0.02)))\<close> rounded to two decimals
  (times \<open>100\<close>, rounded, divided by \<open>100\<close>). The prior state is the card's \<^verbatim>\<open>sm2Data\<close>, or
  the defaults when it has none; the arithmetic is that of binary64 numbers.
\<close>

theorem calculateNextReview_correct_response:
  assumes "q = max 0 (min 5 (round (dval quality)))" and "3 \<le> q"
    and "prior = currentData clk fcard"
    and "r = calculateNextReview tz clk fcard quality"
  shows "repetitions r = repetitions prior + 1 \<and>
         interval r =
           (if repetitions r = 1 then 1
            else if repetitions r = 2 then 6
            else round (dval (num (real_of_int (interval prior)) * easeFactor prior))) \<and>
         easeFactor r =
           num (real_of_int (round (dval (
             max (num 1.3)
               (easeFactor prior +
                 (num 0.1 - num (real_of_int (5 - q)) *
                              (num 0.08 + num (real_of_int (5 - q)) * num 0.02))) *
             num 100)))) / num 100"
proof -
  have q: "max 0 (min 5 (Math_round quality)) = q"
    using assms(1) by (simp add: Math_round_def round_def)
  show ?thesis
    using assms(2) unfolding assms(3,4) calculateNextReview_def q Let_def
    by (simp add: Math_round_def round_def)
qed

theorem calculateNextReview_correct_response_witness:
  "(5::int) = max 0 (min 5 (round (dval (num 5)))) \<and>
   repetitions (calculateNextReview utc_zone (steady_clock 1774657800000)
     (mock_card ''1'' (Some (mock_sm2 (num 2.3) 55 5 1774657800000)) None) (num 5)) = 6 \<and>
   interval (calculateNextReview utc_zone (steady_clock 1774657800000)
     (mock_card ''1'' (Some (mock_sm2 (num 2.3) 55 5 1774657800000)) None) (num 5)) = 126 \<and>
   easeFactor (calculateNextReview utc_zone (steady_clock 1774657800000)
     (mock_card ''1'' (Some (mock_sm2 (num 2.3) 55 5 1774657800000)) None) (num 5)) = num 2.4 \<and>
   (4::int) = max 0 (min 5 (round (dval (num 4)))) \<and>
   repetitions (calculateNextReview utc_zone (steady_clock 1774657800000)
     (mock_card ''2'' (Some (mock_sm2 (num 2.135) 1 0 1774657800000)) None) (num 4)) = 1 \<and>
   interval (calculateNextReview utc_zone (steady_clock 1774657800000)
     (mock_card ''2'' (Some (mock_sm2 (num 2.135) 1 0 1774657800000)) None) (num 4)) = 1 \<and>
   easeFactor (calculateNextReview utc_zone (steady_clock 1774657800000)
     (mock_card ''2'' (Some (mock_sm2 (num 2.135) 1 0 1774657800000)) None) (num 4)) = num 2.13 \<and>
   (3::int) = max 0 (min 5 (round (dval (num 3)))) \<and>
   repetitions (calculateNextReview utc_zone (steady_clock 1774657800000)
     (mock_card ''3'' None None) (num 3)) = 1 \<and>
   interval (calculateNextReview utc_zone (steady_clock 1774657800000)
     (mock_card ''3'' None None) (num 3)) = 1 \<and>
   easeFactor (calculateNextReview utc_zone (steady_clock 1774657800000)
     (mock_card ''3'' None None) (num 3)) = num 2.36"
  using calculateNextReview_correct_response
    [of 5 "num 5" "mock_sm2 (num 2.3) 55 5 1774657800000" "steady_clock 1774657800000"
        "mock_card ''1'' (Some (mock_sm2 (num 2.3) 55 5 1774657800000)) None" _ utc_zone,
     OF _ _ _ refl]
    calculateNextReview_correct_response
    [of 4 "num 4" "mock_sm2 (num 2.135) 1 0 1774657800000" "steady_clock 1774657800000"
        "mock_card ''2'' (Some (mock_sm2 (num 2.135) 1 0 1774657800000)) None" _ utc_zone,
     OF _ _ _ refl]
    calculateNextReview_correct_response
    [of 3 "num 3" "currentData (steady_clock 1774657800000) (mock_card ''3'' None None)"
        "steady_clock 1774657800000" "mock_card ''3'' None None" _ utc_zone,
     OF _ _ refl refl]
  by (simp add: currentData_def mock_card_def mock_sm2_def double_eval fl_eval round_def)

text \<open>
  C3. An incorrect response. When the quality, rounded and clamped, is below \<open>3\<close> (that is
  \<open>0\<close>, \<open>1\<close> or \<open>2\<close>), the result has repetitions \<open>0\<close>, interval \<open>1\<close> and the ease factor
  \<open>max 1.3 (prior - 0.2)\<close> rounded to two decimals (times \<open>100\<close>, rounded, divided by \<open>100\<close>),
  in the arithmetic of binary64 numbers.
\<close>

theorem calculateNextReview_incorrect_response:
  assumes "q = max 0 (min 5 (round (dval quality)))" and "q < 3"
    and "prior = currentData clk fcard"
    and "r = calculateNextReview tz clk fcard quality"
  shows "repetitions r = 0 \<and> interval r = 1 \<and>
         easeFactor r =
           num (real_of_int (round (dval (
             max (num 1.3) (easeFactor prior - num 0.2) * num 100)))) / num 100"
proof -
  have q: "max 0 (min 5 (Math_round quality)) = q"
    using assms(1) by (simp add: Math_round_def round_def)
  show ?thesis
    using assms(2) unfolding assms(3,4) calculateNextReview_def q Let_def
    by (simp add: Math_round_def round_def)
qed

theorem calculateNextReview_incorrect_response_witness:
  "(0::int) = max 0 (min 5 (round (dval (num 0)))) \<and>
   repetitions (calculateNextReview utc_zone (steady_clock 1774657800000)
     (mock_card ''1'' (Some (mock_sm2 (num 2.135) 6 2 1774657800000)) None) (num 0)) = 0 \<and>
   interval (calculateNextReview utc_zone (steady_clock 1774657800000)
     (mock_card ''1'' (Some (mock_sm2 (num 2.135) 6 2 1774657800000)) None) (num 0)) = 1 \<and>
   easeFactor (calculateNextReview utc_zone (steady_clock 1774657800000)
     (mock_card ''1'' (Some (mock_sm2 (num 2.135) 6 2 1774657800000)) None) (num 0)) = num 1.93 \<and>
   (2::int) = max 0 (min 5 (round (dval (num 2)))) \<and>
   easeFactor (calculateNextReview utc_zone (steady_clock 1774657800000)
     (mock_card ''2'' (Some (mock_sm2 (num 2.7) 6 2 1774657800000)) None) (num 2)) = num 2.5 \<and>
   easeFactor (calculateNextReview utc_zone (steady_clock 1774657800000)
     (mock_card ''3'' (Some (mock_sm2 (num 1.4) 6 2 1774657800000)) None) (num 2)) = num 1.3 \<and>
   easeFactor (calculateNextReview utc_zone (steady_clock 1774657800000)
     (mock_card ''4'' (Some (mock_sm2 (num 1.7049999999999998) 6 2 1774657800000)) None) (num 2)) =
     num 1.51"
  using calculateNextReview_incorrect_response
    [of 0 "num 0" "mock_sm2 (num 2.135) 6 2 1774657800000" "steady_clock 1774657800000"
        "mock_card ''1'' (Some (mock_sm2 (num 2.135) 6 2 1774657800000)) None" _ utc_zone,
     OF _ _ _ refl]
    calculateNextReview_incorrect_response
    [of 2 "num 2" "mock_sm2 (num 2.7) 6 2 1774657800000" "steady_clock 1774657800000"
        "mock_card ''2'' (Some (mock_sm2 (num 2.7) 6 2 1774657800000)) None" _ utc_zone,
     OF _ _ _ refl]
    calculateNextReview_incorrect_response
    [of 2 "num 2" "mock_sm2 (num 1.4) 6 2 1774657800000" "steady_clock 1774657800000"
        "mock_card ''3'' (Some (mock_sm2 (num 1.4) 6 2 1774657800000)) None" _ utc_zone,
     OF _ _ _ refl]
    calculateNextReview_incorrect_response
    [of 2 "num 2" "mock_sm2 (num 1.7049999999999998) 6 2 1774657800000"
        "steady_clock 1774657800000"
        "mock_card ''4'' (Some (mock_sm2 (num 1.7049999999999998) 6 2 1774657800000)) None" _
        utc_zone,
     OF _ _ _ refl]
  by (simp add: currentData_def mock_card_def mock_sm2_def double_eval fl_eval round_def)

text \<open>
  The floor survives the rounding to two decimals: \<open>1.3 * 100\<close> is \<open>130\<close> exactly, and
  \<open>130 / 100\<close> is the number \<open>1.3\<close>, which as a real lies just above \<open>13/10\<close>.
\<close>

lemma round2_floor:
  assumes "num 1.3 \<le> x"
  shows "13/10 \<le> dval (num (real_of_int (Math_round (x * num 100))) / num 100)"
proof -
  have "fl (fl (13/10) * 100) \<le> fl (dval x * 100)"
    using assms by (intro fl_mono) (simp add: less_eq_double_def dval_num)
  moreover have "fl (fl (13/10) * 100) = 130" by (simp add: fl_eval)
  moreover have "fl 100 = 100" by (simp add: fl_eval)
  ultimately have "130 \<le> dval (x * num 100)"
    by (simp add: times_double_def dval_num)
  then have "130 \<le> Math_round (x * num 100)"
    unfolding Math_round_def by linarith
  then have "(130::real) \<le> real_of_int (Math_round (x * num 100))" by linarith
  then have "fl 130 \<le> fl (real_of_int (Math_round (x * num 100)))" by (rule fl_mono)
  moreover have "fl 130 = 130" by (simp add: fl_eval)
  ultimately have "fl (130 / 100) \<le> fl (fl (real_of_int (Math_round (x * num 100))) / 100)"
    by (intro fl_mono) simp
  moreover have "(13/10::real) \<le> fl (130 / 100)" by (simp add: fl_eval)
  ultimately show ?thesis
    using \<open>fl 100 = 100\<close> by (simp add: divide_double_def dval_num)
qed

lemma easeFactor_calculateNextReview:
  "\<exists>x. num 1.3 \<le> x \<and>
       easeFactor (calculateNextReview tz clk fcard quality) =
         num (real_of_int (Math_round (x * num 100))) / num 100"
proof -
  define q where "q = max 0 (min 5 (Math_round quality))"
  define ef where "ef = easeFactor (currentData clk fcard)"
  define x where "x =
    (if 3 \<le> q
     then max (num 1.3)
            (ef + (num 0.1 - num (real_of_int (5 - q)) *
                               (num 0.08 + num (real_of_int (5 - q)) * num 0.02)))
     else max (num 1.3) (ef - num 0.2))"
  have "easeFactor (calculateNextReview tz clk fcard quality) =
          num (real_of_int (Math_round (x * num 100))) / num 100"
    unfolding calculateNextReview_def q_def[symmetric] Let_def x_def ef_def
    by simp
  moreover have "num 1.3 \<le> x"
  proof -
    have m: "num 1.3 \<le> max (num 1.3) y" for y by (rule max.cobounded1)
    show ?thesis unfolding x_def by (cases "3 \<le> q") (simp_all only: if_True if_False m)
  qed
  ultimately show ?thesis by blast
qed

lemma easeFactor_floor: "13/10 \<le> dval (easeFactor (calculateNextReview tz clk fcard quality))"
proof -
  obtain x where "num 1.3 \<le> x"
    and e: "easeFactor (calculateNextReview tz clk fcard quality) =
              num (real_of_int (Math_round (x * num 100))) / num 100"
    using easeFactor_calculateNextReview by blast
  then show ?thesis using round2_floor[of x] unfolding e by blast
qed

lemma reviewAll_floor:
  "case sm2Data (reviewAll tz (handleUpdateCard fcard (calculateNextReview tz clk fcard quality)) rest) of
     Some d \<Rightarrow> 13/10 \<le> dval (easeFactor d)
   | None \<Rightarrow> False"
proof (induction rest arbitrary: fcard clk quality)
  case Nil
  show ?case
    using easeFactor_floor[of tz clk fcard quality] by (simp add: handleUpdateCard_def)
next
  case (Cons step rest)
  obtain clk' quality' where "step = (clk', quality')" by (cases step)
  then show ?case using Cons.IH by simp
qed

text \<open>
  A number is at least the real \<open>13/10\<close> exactly when it is at least the number \<open>1.3\<close>, the
  comparison the source would make.
\<close>

lemma floor_double: "13/10 \<le> dval y \<longleftrightarrow> num 1.3 \<le> y"
proof
  assume "13/10 \<le> dval y"
  then have "fl (13/10) \<le> fl (dval y)" by (rule fl_mono)
  then show "num 1.3 \<le> y" by (simp add: less_eq_double_def dval_num fl_dval)
next
  assume "num 1.3 \<le> y"
  moreover have "(13/10::real) \<le> fl (13/10)" by (simp add: fl_eval)
  ultimately show "13/10 \<le> dval y" by (simp add: less_eq_double_def dval_num)
qed

text \<open>
  C4. The floor of the ease factor. Whatever the card (with \<^verbatim>\<open>sm2Data\<close> or without, and
  whatever its prior ease factor) and whatever the quality, the ease factor that
  \<^verbatim>\<open>calculateNextReview\<close> returns, after the rounding to two decimals, is at least \<open>1.3\<close>,
  as a number compared with the number \<open>1.3\<close> and as a real compared with \<open>13/10\<close>.
  So it is after any run of one or more reviews stored back on the card, of any
  qualities, failures included.
\<close>

theorem easeFactor_at_least_floor:
  "num 1.3 \<le> easeFactor (calculateNextReview tz clk fcard quality) \<and>
   13/10 \<le> dval (easeFactor (calculateNextReview tz clk fcard quality)) \<and>
   (case sm2Data (reviewAll tz fcard ((clk, quality) # rest)) of
      Some d \<Rightarrow> num 1.3 \<le> easeFactor d \<and> 13/10 \<le> dval (easeFactor d)
    | None \<Rightarrow> False)"
proof -
  have "num 1.3 \<le> easeFactor (calculateNextReview tz clk fcard quality) \<and>
        13/10 \<le> dval (easeFactor (calculateNextReview tz clk fcard quality))"
    using easeFactor_floor[of tz clk fcard quality] floor_double by blast
  moreover have "case sm2Data (reviewAll tz fcard ((clk, quality) # rest)) of
      Some d \<Rightarrow> num 1.3 \<le> easeFactor d \<and> 13/10 \<le> dval (easeFactor d)
    | None \<Rightarrow> False"
  proof (cases "sm2Data (reviewAll tz fcard ((clk, quality) # rest))")
    case None
    then show ?thesis using reviewAll_floor[of tz fcard clk quality rest] by simp
  next
    case (Some d)
    then have "13/10 \<le> dval (easeFactor d)"
      using reviewAll_floor[of tz fcard clk quality rest] by simp
    then show ?thesis unfolding Some using floor_double[of "easeFactor d"] by simp
  qed
  ultimately show ?thesis by blast
qed

lemma Math_round_small:
  assumes "0 \<le> n" and "n \<le> 5"
  shows "Math_round (num (real_of_int n)) = n"
proof -
  have "n = 0 \<or> n = 1 \<or> n = 2 \<or> n = 3 \<or> n = 4 \<or> n = 5" using assms by linarith
  then show ?thesis
    by (auto simp: Math_round_def dval_num fl_eval)
qed

text \<open>
  C7. The quality is rounded, then clamped, and every number is accepted: the result for
  a quality is the result for that quality rounded to the nearest integer and clamped
  into \<open>[0, 5]\<close>. In particular \<open>-5\<close> gives what \<open>0\<close> gives, and \<open>99\<close> what \<open>5\<close> gives.
\<close>

theorem calculateNextReview_quality_normalized:
  "calculateNextReview tz clk fcard quality =
     calculateNextReview tz clk fcard (num (real_of_int (max 0 (min 5 (round (dval quality)))))) \<and>
   calculateNextReview tz clk fcard (num (- 5)) = calculateNextReview tz clk fcard (num 0) \<and>
   calculateNextReview tz clk fcard (num 99) = calculateNextReview tz clk fcard (num 5)"
proof -
  have n: "max 0 (min 5 (Math_round (num (real_of_int (max 0 (min 5 (round (dval q)))))))) =
           max 0 (min 5 (Math_round q))" for q
    by (subst Math_round_small) (simp_all add: Math_round_def round_def)
  have a: "max 0 (min 5 (Math_round (num (- 5)))) = max 0 (min 5 (Math_round (num 0)))"
    by (simp add: Math_round_def dval_num fl_eval)
  have b: "max 0 (min 5 (Math_round (num 99))) = max 0 (min 5 (Math_round (num 5)))"
    by (simp add: Math_round_def dval_num fl_eval)
  show ?thesis
    unfolding calculateNextReview_def n a b by simp
qed

text \<open>
  C10. The result depends on the card only through its \<^verbatim>\<open>sm2Data\<close>: two cards with
  equal \<^verbatim>\<open>sm2Data\<close> (or both without), reviewed with the same quality on the same host
  under the same clock, get the same result, whatever their identifiers, texts,
  confidence or review history.
\<close>

theorem calculateNextReview_reads_sm2Data_only:
  assumes "sm2Data card1 = sm2Data card2"
  shows "calculateNextReview tz clk card1 quality = calculateNextReview tz clk card2 quality"
  using assms unfolding calculateNextReview_def currentData_fields by simp

theorem calculateNextReview_reads_sm2Data_only_witness:
  "mock_card ''1'' (Some (mock_sm2 (num 2.5) 6 2 0)) None \<noteq>
     mock_card ''2'' (Some (mock_sm2 (num 2.5) 6 2 0))
       (Some [\<lparr>timestamp = 5, response = Difficult, review_quality = Some (num 3)\<rparr>]) \<and>
   calculateNextReview cet_2026 (steady_clock 1774657800000)
     (mock_card ''1'' (Some (mock_sm2 (num 2.5) 6 2 0)) None) (num 4) =
   calculateNextReview cet_2026 (steady_clock 1774657800000)
     (mock_card ''2'' (Some (mock_sm2 (num 2.5) 6 2 0))
       (Some [\<lparr>timestamp = 5, response = Difficult, review_quality = Some (num 3)\<rparr>])) (num 4)"
  using calculateNextReview_reads_sm2Data_only
    [of "mock_card ''1'' (Some (mock_sm2 (num 2.5) 6 2 0)) None"
        "mock_card ''2'' (Some (mock_sm2 (num 2.5) 6 2 0))
           (Some [\<lparr>timestamp = 5, response = Difficult, review_quality = Some (num 3)\<rparr>])"
        cet_2026 "steady_clock 1774657800000" "num 4"]
  by (simp add: mock_card_def)

subsection \<open>The card selector\<close>

text \<open>
  C5. \<^verbatim>\<open>getDueCards\<close> returns the cards of the input, in the order of the input, that
  have no \<^verbatim>\<open>sm2Data\<close> or whose \<^verbatim>\<open>nextReview\<close> is at most the time \<open>now\<close> read from the
  clock; nothing for the empty input; and a card whose \<^verbatim>\<open>nextReview\<close> is exactly \<open>now\<close>
  is due.
\<close>

theorem getDueCards_filter:
  "getDueCards clk cards =
     filter (\<lambda>fcard. sm2Data fcard = None \<or>
                      (\<exists>d. sm2Data fcard = Some d \<and> nextReview d \<le> int (clk 0))) cards \<and>
   getDueCards clk [] = [] \<and>
   getDueCards clk [fcard\<lparr>sm2Data := Some (d\<lparr>nextReview := int (clk 0)\<rparr>)\<rparr>] =
     [fcard\<lparr>sm2Data := Some (d\<lparr>nextReview := int (clk 0)\<rparr>)\<rparr>]"
  unfolding getDueCards_def Let_def
  by (auto intro!: filter_cong simp: truthy_def split: option.splits)

text \<open>
  C6. Over cards whose ease factor, where they have \<^verbatim>\<open>sm2Data\<close>, is at least \<open>1.3\<close> (the
  domain of the ease factor, which C4 shows the engine keeps), \<^verbatim>\<open>getDifficultCards\<close>
  returns, in the order of the input, exactly the cards that \<^verbatim>\<open>getDueCards\<close> returns at
  the same clock and that have a review in their history with response \<^verbatim>\<open>unknown\<close> or
  \<^verbatim>\<open>difficult\<close>, or \<^verbatim>\<open>sm2Data\<close> with an ease factor below \<open>2.0\<close>. So a card is among them
  if and only if it is in the input, meets this condition and is due; one that meets the
  condition and is not due is left out.
\<close>

theorem getDifficultCards_filter:
  assumes "\<forall>fcard \<in> set cards. \<forall>d. sm2Data fcard = Some d \<longrightarrow> 13/10 \<le> dval (easeFactor d)"
  shows "getDifficultCards clk cards =
     filter (\<lambda>fcard.
         (\<exists>h. reviewHistory fcard = Some h \<and>
              (\<exists>review \<in> set h. response review = Unknown \<or> response review = Difficult)) \<or>
         (\<exists>d. sm2Data fcard = Some d \<and> dval (easeFactor d) < 2))
       (getDueCards clk cards)"
proof -
  have two: "dval (num 2) = 2" by (simp add: dval_num fl_eval)
  show ?thesis
    unfolding getDueCards_def getDifficultCards_def Let_def filter_filter
    using assms
    by (intro filter_cong refl)
       (auto simp: truthy_double truthy_def list_ex_iff less_double_def two split: option.splits)
qed

theorem getDifficultCards_filter_witness:
  "getDueCards (steady_clock 2000)
     [mock_card ''1'' (Some (mock_sm2 (num 1.9) 1 0 1000)) None,
      mock_card ''2'' (Some (mock_sm2 (num 1.9) 1 0 3000)) None,
      mock_card ''3'' (Some (mock_sm2 (num 2.5) 1 0 1000)) None,
      mock_card ''4'' None
        (Some [\<lparr>timestamp = 5, response = Difficult, review_quality = None\<rparr>])] =
     [mock_card ''1'' (Some (mock_sm2 (num 1.9) 1 0 1000)) None,
      mock_card ''3'' (Some (mock_sm2 (num 2.5) 1 0 1000)) None,
      mock_card ''4'' None
        (Some [\<lparr>timestamp = 5, response = Difficult, review_quality = None\<rparr>])] \<and>
   getDifficultCards (steady_clock 2000)
     [mock_card ''1'' (Some (mock_sm2 (num 1.9) 1 0 1000)) None,
      mock_card ''2'' (Some (mock_sm2 (num 1.9) 1 0 3000)) None,
      mock_card ''3'' (Some (mock_sm2 (num 2.5) 1 0 1000)) None,
      mock_card ''4'' None
        (Some [\<lparr>timestamp = 5, response = Difficult, review_quality = None\<rparr>])] =
     [mock_card ''1'' (Some (mock_sm2 (num 1.9) 1 0 1000)) None,
      mock_card ''4'' None
        (Some [\<lparr>timestamp = 5, response = Difficult, review_quality = None\<rparr>])]"
proof -
  have due: "getDueCards (steady_clock 2000)
     [mock_card ''1'' (Some (mock_sm2 (num 1.9) 1 0 1000)) None,
      mock_card ''2'' (Some (mock_sm2 (num 1.9) 1 0 3000)) None,
      mock_card ''3'' (Some (mock_sm2 (num 2.5) 1 0 1000)) None,
      mock_card ''4'' None
        (Some [\<lparr>timestamp = 5, response = Difficult, review_quality = None\<rparr>])] =
     [mock_card ''1'' (Some (mock_sm2 (num 1.9) 1 0 1000)) None,
      mock_card ''3'' (Some (mock_sm2 (num 2.5) 1 0 1000)) None,
      mock_card ''4'' None
        (Some [\<lparr>timestamp = 5, response = Difficult, review_quality = None\<rparr>])]"
    by (simp add: getDueCards_def steady_clock_def mock_card_def mock_sm2_def truthy_def)
  show ?thesis
    using getDifficultCards_filter [of
      "[mock_card ''1'' (Some (mock_sm2 (num 1.9) 1 0 1000)) None,
        mock_card ''2'' (Some (mock_sm2 (num 1.9) 1 0 3000)) None,
        mock_card ''3'' (Some (mock_sm2 (num 2.5) 1 0 1000)) None,
        mock_card ''4'' None
          (Some [\<lparr>timestamp = 5, response = Difficult, review_quality = None\<rparr>])]"
      "steady_clock 2000"]
    unfolding due
    by (simp add: mock_card_def mock_sm2_def dval_num fl_eval)
qed

subsection \<open>The statistics\<close>

text \<open>Over cards that all have \<^verbatim>\<open>sm2Data\<close> the sum is the left fold of the ease factors.\<close>

lemma reduce_easeFactor_foldl:
  assumes "\<forall>fcard \<in> set cs. sm2Data fcard \<noteq> None"
  shows "reduce_easeFactor sum0 cs =
           Inr (foldl (+) sum0
                  (map (\<lambda>fcard. case sm2Data fcard of Some d \<Rightarrow> easeFactor d | None \<Rightarrow> 0) cs))"
  using assms
proof (induction cs arbitrary: sum0)
  case Nil
  show ?case by simp
next
  case (Cons c cs)
  then obtain d where "sm2Data c = Some d" by auto
  with Cons show ?case by simp
qed

text \<open>
  C9. \<^verbatim>\<open>getStudyStats\<close> never divides by zero: it always returns a summary. In it
  \<^verbatim>\<open>total\<close> is the number of cards and \<^verbatim>\<open>mastered\<close> the number of cards whose ease factor
  is above \<open>2.5\<close> and whose interval is above \<open>7\<close>; \<^verbatim>\<open>masteryPercentage\<close> is \<open>0\<close> when
  there is no card and \<open>round (mastered / total * 100)\<close> otherwise; \<^verbatim>\<open>avgEaseFactor\<close> is,
  rounded to two decimals, the \<open>2.5\<close> of the default when no card has \<^verbatim>\<open>sm2Data\<close> with an
  ease factor (so whenever no card has \<^verbatim>\<open>sm2Data\<close>), and otherwise the sum of these ease
  factors, added from the left, over their count. For the empty list the summary has
  \<^verbatim>\<open>total\<close> \<open>0\<close>, \<^verbatim>\<open>masteryPercentage\<close> \<open>0\<close> and \<^verbatim>\<open>avgEaseFactor\<close> \<open>2.5\<close>. The arithmetic is
  that of binary64 numbers.
\<close>

theorem getStudyStats_defined:
  "\<exists>r. getStudyStats clk cards = Inr r \<and>
        total_cards r = length cards \<and>
        mastered r =
          length (filter (\<lambda>fcard. \<exists>d. sm2Data fcard = Some d \<and>
                                     5/2 < dval (easeFactor d) \<and> 7 < interval d) cards) \<and>
        masteryPercentage r =
          (if length cards = 0 then 0
           else round (dval (num (real (mastered r)) / num (real (length cards)) * num 100))) \<and>
        avgEaseFactor r =
          (let efs = map (\<lambda>fcard. case sm2Data fcard of Some d \<Rightarrow> easeFactor d | None \<Rightarrow> 0)
                       (filter (\<lambda>fcard. \<exists>d. sm2Data fcard = Some d \<and> dval (easeFactor d) \<noteq> 0)
                          cards);
               avg = (if efs = [] then num 2.5
                      else foldl (+) (num 0) efs / num (real (length efs)))
           in num (real_of_int (round (dval (avg * num 100)))) / num 100) \<and>
        ((\<forall>fcard \<in> set cards. sm2Data fcard = None) \<longrightarrow> avgEaseFactor r = num 2.5) \<and>
        (cards = [] \<longrightarrow> total_cards r = 0 \<and> masteryPercentage r = 0 \<and> avgEaseFactor r = num 2.5)"
proof -
  define withEase :: "FlashCard \<Rightarrow> bool" where "withEase =
    (\<lambda>fcard. case sm2Data fcard of None \<Rightarrow> False | Some d \<Rightarrow> truthy (easeFactor d))"
  define cardsWithEase where "cardsWithEase = filter withEase cards"
  define efs where "efs =
    map (\<lambda>fcard. case sm2Data fcard of Some d \<Rightarrow> easeFactor d | None \<Rightarrow> 0) cardsWithEase"
  define avg where "avg =
    (if efs = [] then num 2.5 else foldl (+) (num 0) efs / num (real (length efs)))"
  define masteredCards where "masteredCards =
    length (filter (\<lambda>fcard.
      case sm2Data fcard of
        None \<Rightarrow> False
      | Some d \<Rightarrow> truthy (easeFactor d) \<and> easeFactor d > num 2.5 \<and>
                 truthy (interval d) \<and> interval d > 7) cards)"
  have withEase: "withEase = (\<lambda>fcard. \<exists>d. sm2Data fcard = Some d \<and> dval (easeFactor d) \<noteq> 0)"
    by (rule ext) (simp add: withEase_def truthy_double split: option.splits)
  have "\<forall>fcard \<in> set cardsWithEase. sm2Data fcard \<noteq> None"
    by (auto simp: cardsWithEase_def withEase)
  then have s: "reduce_easeFactor (num 0) cardsWithEase = Inr (foldl (+) (num 0) efs)"
    unfolding efs_def by (rule reduce_easeFactor_foldl)
  have len: "length efs = length cardsWithEase" by (simp add: efs_def)
  have emp: "efs = [] \<longleftrightarrow> cardsWithEase = []" by (simp add: efs_def)
  have nz: "num (real n) \<noteq> 0" if "0 < n" for n :: nat
    using that by (simp add: num_eq_0_iff)
  have avg_Inr:
    "(if length cardsWithEase > 0
      then (case reduce_easeFactor (num 0) cardsWithEase of
              Inl e \<Rightarrow> Inl e
            | Inr s \<Rightarrow> divide_number s (num (real (length cardsWithEase))))
      else Inr (num 2.5)) = Inr avg"
    unfolding s avg_def using nz[of "length cardsWithEase"]
    by (simp add: divide_number_def len emp)
  have two5: "dval (num 2.5) = 5/2" by (simp add: dval_num fl_eval)
  have m: "masteredCards =
    length (filter (\<lambda>fcard. \<exists>d. sm2Data fcard = Some d \<and>
                              5/2 < dval (easeFactor d) \<and> 7 < interval d) cards)"
    unfolding masteredCards_def using two5
    by (intro arg_cong[where f = length] filter_cong)
       (auto simp: truthy_double truthy_def less_double_def split: option.splits)
  have pct:
    "(if length cards > 0
      then (case divide_number (num (real masteredCards)) (num (real (length cards))) of
              Inl e \<Rightarrow> Inl e
            | Inr r \<Rightarrow> Inr (Math_round (r * num 100)))
      else Inr 0) =
     Inr (if length cards = 0 then 0
          else round (dval (num (real masteredCards) / num (real (length cards)) * num 100)))"
    using nz[of "length cards"]
    by (simp add: divide_number_def Math_round_def round_def)
  define r where "r =
    \<lparr>total_cards = length cards,
     reviewed = length (filter (\<lambda>fcard.
                  case sm2Data fcard of None \<Rightarrow> False | Some d \<Rightarrow> truthy (lastReviewed d)) cards),
     due = length (getDueCards clk cards),
     difficult_cards = length (getDifficultCards (later 1 clk) cards),
     mastered = masteredCards,
     masteryPercentage =
       (if length cards = 0 then 0
        else round (dval (num (real masteredCards) / num (real (length cards)) * num 100))),
     avgEaseFactor = num (real_of_int (Math_round (avg * num 100))) / num 100\<rparr>"
  have r: "getStudyStats clk cards = Inr r"
    unfolding getStudyStats_def Let_def withEase_def[symmetric] cardsWithEase_def[symmetric]
      masteredCards_def[symmetric] avg_Inr pct r_def
    by simp
  have a: "avgEaseFactor r =
          (let efs = map (\<lambda>fcard. case sm2Data fcard of Some d \<Rightarrow> easeFactor d | None \<Rightarrow> 0)
                       (filter (\<lambda>fcard. \<exists>d. sm2Data fcard = Some d \<and> dval (easeFactor d) \<noteq> 0)
                          cards);
               avg = (if efs = [] then num 2.5
                      else foldl (+) (num 0) efs / num (real (length efs)))
           in num (real_of_int (round (dval (avg * num 100)))) / num 100)"
    unfolding Let_def
    by (simp add: r_def avg_def efs_def cardsWithEase_def withEase Math_round_def round_def)
  have r250: "num (real_of_int (Math_round (num 2.5 * num 100))) / num 100 = num 2.5"
    by (simp add: Math_round_def double_eval fl_eval)
  have none: "efs = []" if "\<forall>fcard \<in> set cards. sm2Data fcard = None"
    using that by (auto simp: efs_def cardsWithEase_def withEase filter_empty_conv)
  have a25: "avgEaseFactor r = num 2.5" if "efs = []"
    using that r250 by (simp add: r_def avg_def)
  have "avgEaseFactor r = num 2.5" if "\<forall>fcard \<in> set cards. sm2Data fcard = None"
    using none[OF that] a25 by simp
  moreover have "total_cards r = 0 \<and> masteryPercentage r = 0 \<and> avgEaseFactor r = num 2.5"
    if "cards = []"
    using that a25 by (simp add: r_def efs_def cardsWithEase_def)
  moreover have "total_cards r = length cards" by (simp add: r_def)
  moreover have "mastered r =
          length (filter (\<lambda>fcard. \<exists>d. sm2Data fcard = Some d \<and>
                                     5/2 < dval (easeFactor d) \<and> 7 < interval d) cards)"
    using m by (simp add: r_def)
  moreover have "masteryPercentage r =
          (if length cards = 0 then 0
           else round (dval (num (real (mastered r)) / num (real (length cards)) * num 100)))"
    by (simp add: r_def)
  ultimately show ?thesis using r a by blast
qed

theorem getStudyStats_defined_witness:
  "(\<exists>r. getStudyStats (steady_clock 1774657800000) [] = Inr r \<and>
        total_cards r = 0 \<and> masteryPercentage r = 0 \<and> avgEaseFactor r = num 2.5) \<and>
   (\<exists>r. getStudyStats (steady_clock 1774657800000)
            (replicate 23 (mock_card ''1'' (Some (mock_sm2 (num 2.6) 16 3 0)) None) @
             replicate 17 (mock_card ''2'' None None)) = Inr r \<and>
        total_cards r = 40 \<and> mastered r = 23 \<and> masteryPercentage r = 57) \<and>
   (\<exists>r. getStudyStats (steady_clock 1774657800000)
            [mock_card ''1'' (Some (mock_sm2 (num 1.3) 1 0 0)) None,
             mock_card ''2'' (Some (mock_sm2 (num 2.01) 1 0 0)) None] = Inr r \<and>
        total_cards r = 2 \<and> mastered r = 0 \<and> masteryPercentage r = 0 \<and>
        avgEaseFactor r = num 1.65) \<and>
   (\<exists>r. getStudyStats (steady_clock 1774657800000) [mock_card ''1'' None None] = Inr r \<and>
        total_cards r = 1 \<and> mastered r = 0 \<and> masteryPercentage r = 0 \<and>
        avgEaseFactor r = num 2.5)"
proof -
  let ?clk = "steady_clock 1774657800000"
  let ?A = "mock_card ''1'' (Some (mock_sm2 (num 2.6) 16 3 0)) None"
  let ?B = "mock_card ''2'' None None"
  let ?C = "mock_card ''1'' (Some (mock_sm2 (num 1.3) 1 0 0)) None"
  let ?D = "mock_card ''2'' (Some (mock_sm2 (num 2.01) 1 0 0)) None"
  have v: "5/2 < dval (num 2.6)" "dval (num 1.3) \<noteq> 0" "dval (num 2.01) \<noteq> 0"
    by (simp_all add: dval_num fl_eval)
  have p: "round (dval (num (real 23) / num (real 40) * num 100)) = 57"
    by (simp add: double_eval fl_eval round_def)
  have p0: "round (dval (num (real 0) / num (real 2) * num 100)) = 0"
    by (simp add: double_eval fl_eval round_def)
  have a: "num (real_of_int (round (dval (
             (foldl (+) (num 0) [num 1.3, num 2.01] / num (real 2)) * num 100)))) / num 100 =
           num 1.65"
    by (simp add: double_eval fl_eval round_def)
  have cA: "length (filter (\<lambda>fcard. \<exists>d. sm2Data fcard = Some d \<and>
              5/2 < dval (easeFactor d) \<and> 7 < interval d)
              (replicate 23 ?A @ replicate 17 ?B)) = 23"
    using v by (simp add: mock_card_def mock_sm2_def)
  have cC: "length (filter (\<lambda>fcard. \<exists>d. sm2Data fcard = Some d \<and>
              5/2 < dval (easeFactor d) \<and> 7 < interval d) [?C, ?D]) = 0"
    by (simp add: mock_card_def mock_sm2_def)
  have eC: "map (\<lambda>fcard. case sm2Data fcard of Some d \<Rightarrow> easeFactor d | None \<Rightarrow> 0)
              (filter (\<lambda>fcard. \<exists>d. sm2Data fcard = Some d \<and> dval (easeFactor d) \<noteq> 0)
                 [?C, ?D]) = [num 1.3, num 2.01]"
    using v by (simp add: mock_card_def mock_sm2_def)
  have 1: "\<exists>r. getStudyStats ?clk [] = Inr r \<and>
        total_cards r = 0 \<and> masteryPercentage r = 0 \<and> avgEaseFactor r = num 2.5"
    using getStudyStats_defined [of ?clk "[]"] by auto
  have 2: "\<exists>r. getStudyStats ?clk (replicate 23 ?A @ replicate 17 ?B) = Inr r \<and>
        total_cards r = 40 \<and> mastered r = 23 \<and> masteryPercentage r = 57"
    using getStudyStats_defined [of ?clk "replicate 23 ?A @ replicate 17 ?B"] p
    unfolding cA by auto
  have 3: "\<exists>r. getStudyStats ?clk [?C, ?D] = Inr r \<and>
        total_cards r = 2 \<and> mastered r = 0 \<and> masteryPercentage r = 0 \<and>
        avgEaseFactor r = num 1.65"
    using getStudyStats_defined [of ?clk "[?C, ?D]"] p0 a
    unfolding cC eC Let_def by auto
  have p1: "round (dval (num (real 0) / num (real 1) * num 100)) = 0"
    by (simp add: double_eval fl_eval round_def)
  have 4: "\<exists>r. getStudyStats ?clk [mock_card ''1'' None None] = Inr r \<and>
        total_cards r = 1 \<and> mastered r = 0 \<and> masteryPercentage r = 0 \<and>
        avgEaseFactor r = num 2.5"
    using getStudyStats_defined [of ?clk "[mock_card ''1'' None None]"] p1
    by (auto simp: mock_card_def)
  from 1 2 3 4 show ?thesis by blast
qed

subsection \<open>The forecast\<close>

text \<open>
  The loop of \<^verbatim>\<open>getUpcomingReviews\<close> steps the days in the local time of the host
  (\<^verbatim>\<open>setDate\<close>, \<^verbatim>\<open>getDate\<close>) and names them in UTC (\<^verbatim>\<open>toISOString\<close>). On a host
  whose zone has one offset at all times the two agree, and the schedule has one entry per
  UTC day from the day of \<open>now\<close> on, \<open>days\<close> entries in all.
\<close>

lemma setDate_getDate_plus_fixed:
  "setDate_getDate_plus (fixed_zone offset) tv n = tv + n * msPerDay"
proof -
  have "(t div msPerDay + n) * msPerDay + t mod msPerDay = t + n * msPerDay" for t
    by (simp add: algebra_simps)
  then show ?thesis
    by (simp add: setDate_getDate_plus_def LocalTime_def UTC_def MakeDate_def Day_def
        TimeWithinDay_def fixed_zone_def Let_def)
qed

lemma toISODate_plus_days: "toISODate (tv + n * msPerDay) = Day tv + n"
  by (simp add: toISODate_def Day_def msPerDay_def)

lemma update_fresh:
  "k \<notin> fst ` set al \<Longrightarrow> AList.update k v al = al @ [(k, v)]"
  by (induction al) auto

lemma count_onDay:
  "length (filter (\<lambda>fcard.
       case sm2Data fcard of
         None \<Rightarrow> False
       | Some d \<Rightarrow> if \<not> truthy (nextReview d) then False else toISODate (nextReview d) = k) cards) =
   length (filter (onDay k) cards)"
  by (rule arg_cong[where f = length], rule filter_cong)
     (auto simp: onDay_def truthy_def toISODate_def split: option.splits)

text \<open>
  On a host whose offset never changes the loop appends, from \<open>i\<close> on, one entry per day,
  provided the keys written so far are days before \<open>Day now + i\<close>.
\<close>

lemma upcoming_loop_fixed:
  assumes "\<forall>k \<in> fst ` set sched. k < Day now + i"
  shows "upcoming_loop (fixed_zone offset) now cards days i sched =
           sched @ map (\<lambda>j. (Day now + j, length (filter (onDay (Day now + j)) cards)))
                     [i..days - 1]"
  using assms
proof (induction "nat (days - i)" arbitrary: i sched)
  case 0
  then have "\<not> i < days" by simp
  then show ?case by (simp add: upcoming_loop.simps[of _ _ _ days i])
next
  case (Suc n)
  then have lt: "i < days" by linarith
  define k where "k = Day now + i"
  define v where "v = length (filter (onDay k) cards)"
  have fresh: "k \<notin> fst ` set sched"
    using Suc.prems unfolding k_def by auto
  have step: "upcoming_loop (fixed_zone offset) now cards days i sched =
                upcoming_loop (fixed_zone offset) now cards days (i + 1) (sched @ [(k, v)])"
    by (subst upcoming_loop.simps)
       (simp add: lt Let_def setDate_getDate_plus_fixed toISODate_plus_days count_onDay
          update_fresh[OF fresh[unfolded k_def]] k_def v_def)
  have "n = nat (days - (i + 1))" using Suc.hyps(2) by linarith
  moreover have "\<forall>k' \<in> fst ` set (sched @ [(k, v)]). k' < Day now + (i + 1)"
    using Suc.prems unfolding k_def by auto
  ultimately have "upcoming_loop (fixed_zone offset) now cards days (i + 1) (sched @ [(k, v)]) =
      (sched @ [(k, v)]) @
        map (\<lambda>j. (Day now + j, length (filter (onDay (Day now + j)) cards))) [i + 1..days - 1]"
    by (rule Suc.hyps(1))
  moreover have "[i..days - 1] = i # [i + 1..days - 1]"
    using lt by (simp add: upto_rec1)
  ultimately show ?case
    unfolding step by (simp add: k_def v_def)
qed

lemma getUpcomingReviews_eq:
  "getUpcomingReviews (fixed_zone offset) clk cards days =
     map (\<lambda>j. (Day (int (clk 0)) + j, length (filter (onDay (Day (int (clk 0)) + j)) cards)))
       [0..days - 1]"
  unfolding getUpcomingReviews_def
  using upcoming_loop_fixed[where sched = "[]" and now = "int (clk 0)" and i = 0]
  by simp

text \<open>
  C8. The claim gives \<^verbatim>\<open>getUpcomingReviews\<close> exactly \<open>days\<close> entries, one per calendar day
  from \<open>now\<close> on. The code does not do so on a host with daylight saving time. On Central
  European Time, called at 00:30 UTC on 28 March 2026 (UTC day \<open>20540\<close>) for \<open>7\<close> days,
  the steps \<open>i = 1\<close> and \<open>i = 2\<close> are 01:30 local time on 29 and on 30 March, which are
  00:30 UTC and 23:30 UTC on 29 March: both name UTC day \<open>20541\<close>, the later one writes
  over the earlier, and every later step names the day before the one it should. The
  schedule has \<open>6\<close> entries and none for the seventh day, \<open>20546\<close>, so the card due on
  that day is counted nowhere.
\<close>

theorem getUpcomingReviews_daylight_saving:
  "Day (int (steady_clock 1774657800000 0)) = 20540 \<and>
   toISODate (setDate_getDate_plus cet_2026 (int (steady_clock 1774657800000 0)) 1) = 20541 \<and>
   toISODate (setDate_getDate_plus cet_2026 (int (steady_clock 1774657800000 0)) 2) = 20541 \<and>
   toISODate (nextReview (mock_sm2 (num 2.5) 6 2 1775217600000)) = 20546 \<and>
   getUpcomingReviews cet_2026 (steady_clock 1774657800000)
     [mock_card ''1'' (Some (mock_sm2 (num 2.5) 6 2 1775217600000)) None] 7 =
     [(20540, 0), (20541, 0), (20542, 0), (20543, 0), (20544, 0), (20545, 0)] \<and>
   length (getUpcomingReviews cet_2026 (steady_clock 1774657800000)
     [mock_card ''1'' (Some (mock_sm2 (num 2.5) 6 2 1775217600000)) None] 7) = 6 \<and>
   getUpcomingReviews utc_zone (steady_clock 1774657800000)
     [mock_card ''1'' (Some (mock_sm2 (num 2.5) 6 2 1775217600000)) None] 7 =
     [(20540, 0), (20541, 0), (20542, 0), (20543, 0), (20544, 0), (20545, 0), (20546, 1)]"
  by (simp add: getUpcomingReviews_def upcoming_loop.simps steady_clock_def cet_2026_def
      utc_zone_def fixed_zone_def setDate_getDate_plus_def LocalTime_def UTC_def MakeDate_def Day_def
      TimeWithinDay_def msPerDay_def toISODate_def Let_def mock_card_def mock_sm2_def truthy_def)

end
